theory Spec2Isabelle
  imports Complex_Main "HOL-Library.AList"
begin

section \<open>Data model\<close>

text \<open>
  Floating point numbers are modelled as reals. A Python dict is an association list with
  distinct keys in insertion order. Exceptions are values: a function that can raise
  returns \<open>error + 'a\<close>, with \<open>Inl\<close> for the exception.
\<close>

type_synonym domain = string

text \<open>A score dict: score type to float (observed page scores, and a domain's state).\<close>
type_synonym score_dict = "(string \<times> real) list"

text \<open>A link dict: the features of one extracted link, among them the key \<open>url\<close>.\<close>
type_synonym link = "(string \<times> string) list"

datatype error = KeyError | NetworkXError | VectorizerError

text \<open>
  The collaborators that are not part of \<open>qspider.py\<close> are parameters:
  \<^item> \<open>available_form_types\<close>: the score types of \<open>available_form_types()\<close>;
  \<^item> \<open>FLOAT_PRIORITY_MULTIPLIER\<close>: the constant of \<open>deepdeep.queues\<close>;
  \<^item> \<open>transform\<close>: what \<open>TDRegressor._vectorize\<close> gets from the state and action
    vectorizers for a state and an action (which may be \<open>None\<close>); it may raise;
  \<^item> \<open>Q_predict\<close>: the prediction of the \<open>SGDRegressor\<close> that was fitted, one sample at
    a time, on the given samples (the regressor is deterministic: \<open>shuffle=False\<close>).
\<close>

record 'x env =
  available_form_types :: "string list"
  FLOAT_PRIORITY_MULTIPLIER :: real
  transform :: "score_dict \<Rightarrow> link option \<Rightarrow> error + 'x"
  Q_predict :: "('x \<times> real) list \<Rightarrow> 'x \<Rightarrow> real"

subsection \<open>TDRegressor\<close>

text \<open>
  The state of the \<open>SGDRegressor\<close> is the list of samples \<open>(X, y)\<close> that \<open>partial_fit\<close>
  has received so far; \<open>coef_\<close> is \<open>None\<close> exactly when the list is empty.
\<close>

record 'x TDRegressor =
  gamma :: real
  Q :: "('x \<times> real) list"

definition TDRegressor_init :: "real \<Rightarrow> 'x TDRegressor" where
  "TDRegressor_init g = \<lparr>gamma = g, Q = []\<rparr>"

definition vectorize :: "'x env \<Rightarrow> score_dict \<Rightarrow> link option \<Rightarrow> error + 'x" where
  "vectorize env s a = transform env s a"

definition predict :: "'x env \<Rightarrow> 'x TDRegressor \<Rightarrow> score_dict \<Rightarrow> link option \<Rightarrow> error + real" where
  "predict env m s a =
     (if Q m = [] then Inr 0
      else case vectorize env s a of
             Inl e \<Rightarrow> Inl e
           | Inr X \<Rightarrow> Inr (Q_predict env (Q m) X))"

text \<open>
  \<open>update\<close>: the sample handed to \<open>partial_fit\<close> is \<open>(X_t, R_observed)\<close>. The call of
  \<open>predict\<close> inside the \<open>print\<close> is kept, since it can raise.
\<close>

definition update ::
  "'x env \<Rightarrow> 'x TDRegressor \<Rightarrow> score_dict \<Rightarrow> link option \<Rightarrow> real \<Rightarrow> score_dict \<Rightarrow> link option
     \<Rightarrow> error + 'x TDRegressor" where
  "update env m s_t a_t r_t1 s_t1 a_t1 =
     (case vectorize env s_t a_t of
        Inl e \<Rightarrow> Inl e
      | Inr X_t \<Rightarrow>
          (case (if a_t1 = None \<or> Q m = [] then Inr 0
                 else case vectorize env s_t1 a_t1 of
                        Inl e \<Rightarrow> Inl e
                      | Inr X_t1 \<Rightarrow> Inr (gamma m * Q_predict env (Q m) X_t1)) of
             Inl e \<Rightarrow> Inl e
           | Inr future_reward \<Rightarrow>
               (let R_observed = r_t1 + future_reward in
                case predict env m s_t a_t of
                  Inl e \<Rightarrow> Inl e
                | Inr printed \<Rightarrow> Inr (m\<lparr>Q := Q m @ [(X_t, R_observed)]\<rparr>))))"

text \<open>
  The regression target in the words of the specification: \<open>r_t1\<close> if \<open>a_t1\<close> is absent or
  the model is untrained, else \<open>r_t1 + gamma * predict(s_t1, a_t1)\<close>.
\<close>

definition spec_target ::
  "'x env \<Rightarrow> 'x TDRegressor \<Rightarrow> real \<Rightarrow> score_dict \<Rightarrow> link option \<Rightarrow> error + real" where
  "spec_target env m r_t1 s_t1 a_t1 =
     (if a_t1 = None \<or> Q m = [] then Inr r_t1
      else case predict env m s_t1 a_t1 of
             Inl e \<Rightarrow> Inl e
           | Inr p \<Rightarrow> Inr (r_t1 + gamma m * p))"

text \<open>A concrete environment for the examples: one score type, features kept as they are.\<close>

definition env0 :: "(score_dict \<times> link option) env" where
  "env0 = \<lparr>available_form_types = [''forms''],
           FLOAT_PRIORITY_MULTIPLIER = 10000,
           transform = (\<lambda>s a. Inr (s, a)),
           Q_predict = (\<lambda>samples X. snd (last samples))\<rparr>"

subsection \<open>Crawl graph\<close>

text \<open>
  The attribute dict of a node. \<open>None\<close> is an attribute that is not there; \<open>ok\<close> and
  \<open>response_id\<close> can also be there with the value \<open>None\<close> (\<open>Some None\<close>).
\<close>

record node_attrs =
  url :: "string option"
  visited :: "bool option"
  ok :: "bool option option"
  scores :: "score_dict option"
  response_id :: "nat option option"

definition no_attrs :: node_attrs where
  "no_attrs = \<lparr>url = None, visited = None, ok = None, scores = None, response_id = None\<rparr>"

text \<open>\<open>dict.update\<close>: the attributes that are passed replace the old ones, the others stay.\<close>

definition merge_attrs :: "node_attrs \<Rightarrow> node_attrs \<Rightarrow> node_attrs" where
  "merge_attrs old new =
     \<lparr>url = (case url new of None \<Rightarrow> url old | Some v \<Rightarrow> Some v),
      visited = (case visited new of None \<Rightarrow> visited old | Some v \<Rightarrow> Some v),
      ok = (case ok new of None \<Rightarrow> ok old | Some v \<Rightarrow> Some v),
      scores = (case scores new of None \<Rightarrow> scores old | Some v \<Rightarrow> Some v),
      response_id = (case response_id new of None \<Rightarrow> response_id old | Some v \<Rightarrow> Some v)\<rparr>"

text \<open>
  \<open>nx.DiGraph\<close>: \<open>node\<close> is the dict from node id to attributes, \<open>edge\<close> lists the
  edges \<open>(source, target, link)\<close> in insertion order, one per pair of nodes.
\<close>

record graph =
  node :: "(nat \<times> node_attrs) list"
  edge :: "(nat \<times> nat \<times> link) list"

definition empty_graph :: graph where
  "empty_graph = \<lparr>node = [], edge = []\<rparr>"

definition add_node :: "graph \<Rightarrow> nat \<Rightarrow> node_attrs \<Rightarrow> graph" where
  "add_node g n attrs =
     g\<lparr>node := AList.update n
                  (merge_attrs (case map_of (node g) n of None \<Rightarrow> no_attrs | Some old \<Rightarrow> old) attrs)
                  (node g)\<rparr>"

definition add_edge :: "graph \<Rightarrow> nat \<Rightarrow> nat \<Rightarrow> link \<Rightarrow> graph" where
  "add_edge g u v l =
     (let g1 = add_node (add_node g u no_attrs) v no_attrs
      in g1\<lparr>edge := (if (u, v) \<in> set (map (\<lambda>e. (fst e, fst (snd e))) (edge g))
                      then map (\<lambda>e. if fst e = u \<and> fst (snd e) = v then (u, v, l) else e) (edge g)
                      else edge g @ [(u, v, l)])\<rparr>)"

text \<open>\<open>predecessors_iter\<close> raises \<open>NetworkXError\<close> for a node that is not in the graph.\<close>

definition iter_incoming_link_dicts :: "graph \<Rightarrow> nat \<Rightarrow> error + link list" where
  "iter_incoming_link_dicts g node_id =
     (if map_of (node g) node_id = None then Inl NetworkXError
      else Inr (map (\<lambda>e. snd (snd e)) (filter (\<lambda>e. fst (snd e) = node_id) (edge g))))"

subsection \<open>Requests, responses and the state of the spider\<close>

record request =
  req_url :: string
  priority :: int
  meta_node_id :: "nat option"
  meta_domain :: "domain option"

text \<open>
  A response, with what the helpers outside \<open>qspider.py\<close> compute from it:
  \<open>resp_domain\<close> is \<open>get_response_domain(response)\<close>, \<open>resp_max_scores\<close> is
  \<open>response_max_scores(response)\<close>, and \<open>resp_links\<close> is the list of
  \<open>iter_link_dicts(response, domain)\<close> after \<open>random.shuffle\<close>.
\<close>

record response =
  resp_url :: string
  status :: int
  has_text :: bool
  resp_node_id :: "nat option"
  resp_domain :: domain
  resp_max_scores :: score_dict
  resp_links :: "link list"

record 'x QSpider =
  G :: graph
  node_ids :: nat
  scores_recalculated_at :: nat
  domain_scores :: "(domain \<times> score_dict) list"
  rl_model :: "'x TDRegressor"
  response_count :: nat
  scheduler_queue :: "(domain \<times> request list) list"

text \<open>
  \<open>__init__\<close>. Modelled from the spec: \<open>response_count\<close> of \<open>BaseSpider\<close> is missing; it is
  the number of completed fetches and starts at 0. The scheduler starts without queues.
\<close>

definition QSpider_init :: "real \<Rightarrow> 'x QSpider" where
  "QSpider_init g =
     \<lparr>G = empty_graph, node_ids = 0, scores_recalculated_at = 0, domain_scores = [],
      rl_model = TDRegressor_init g, response_count = 0, scheduler_queue = []\<rparr>"

subsection \<open>Helpers of \<open>deepdeep.utils\<close>, \<open>deepdeep.score_pages\<close> and \<open>deepdeep.queues\<close>\<close>

text \<open>
  Modelled from the spec: \<open>get_constant_scores\<close> is missing; the drop and failure handlers
  "record zero scores" with it, one value per available score type.
\<close>

definition get_constant_scores :: "'x env \<Rightarrow> real \<Rightarrow> score_dict" where
  "get_constant_scores env v = map (\<lambda>t. (t, v)) (available_form_types env)"

definition dict_get0 :: "score_dict \<Rightarrow> string \<Rightarrow> real" where
  "dict_get0 d k = (case map_of d k of None \<Rightarrow> 0 | Some v \<Rightarrow> v)"

text \<open>
  Modelled from the spec: \<open>dict_subtract\<close> is missing; the reward is the sum of
  \<open>max(observed[k] - s_t[k], 0)\<close> over score types, a type missing from a state being 0.0.
\<close>

definition dict_subtract :: "score_dict \<Rightarrow> score_dict \<Rightarrow> score_dict" where
  "dict_subtract d1 d2 = map (\<lambda>(k, v). (k, v - dict_get0 d2 k)) d1"

text \<open>
  Modelled from the spec: the class \<open>MaxScores\<close> (the DomainStateTracker) is missing.
  \<open>state(domain)\<close> is the running maximum of the domain, all zero for a domain never
  updated; \<open>update(domain, observed)\<close> sets \<open>state[type] = max(state[type], observed[type])\<close>
  for each observed score type; \<open>domain_count()\<close> is the number of domains updated so far.
\<close>

definition MaxScores_getitem :: "'x env \<Rightarrow> (domain \<times> score_dict) list \<Rightarrow> domain \<Rightarrow> score_dict" where
  "MaxScores_getitem env ds d =
     (case map_of ds d of None \<Rightarrow> get_constant_scores env 0 | Some s \<Rightarrow> s)"

definition running_max :: "score_dict \<Rightarrow> score_dict \<Rightarrow> score_dict" where
  "running_max cur observed =
     fold (\<lambda>(k, v) acc. AList.update k (max (dict_get0 acc k) v) acc) observed cur"

definition MaxScores_update ::
  "'x env \<Rightarrow> (domain \<times> score_dict) list \<Rightarrow> domain \<Rightarrow> score_dict \<Rightarrow> (domain \<times> score_dict) list" where
  "MaxScores_update env ds d observed =
     AList.update d (running_max (MaxScores_getitem env ds d) observed) ds"

definition MaxScores_len :: "(domain \<times> score_dict) list \<Rightarrow> nat" where
  "MaxScores_len ds = length ds"

text \<open>
  Modelled from the spec: the queues of \<open>deepdeep.queues\<close> are missing. A PerDomainQueue is
  the list of its entries in insertion order; \<open>next_request\<close> (peek) is the entry of
  highest priority, the first inserted among equal priorities.
\<close>

fun next_request :: "request list \<Rightarrow> request option" where
  "next_request [] = None"
| "next_request (r # rs) =
     (case next_request rs of
        None \<Rightarrow> Some r
      | Some b \<Rightarrow> if priority b \<le> priority r then Some r else Some b)"

text \<open>
  Modelled from the spec: \<open>update_all_priorities(fn)\<close> recomputes every entry's priority
  in place; a failed priority computation for one entry does not abort the sweep for the
  others, and the entry falls back to its previous priority.
\<close>

definition update_all_priorities :: "(request \<Rightarrow> error + int) \<Rightarrow> request list \<Rightarrow> request list" where
  "update_all_priorities fn q =
     map (\<lambda>entry. case fn entry of Inl e \<Rightarrow> entry | Inr p \<Rightarrow> entry\<lparr>priority := p\<rparr>) q"

text \<open>
  Modelled from the spec: the FrontierScheduler owns one PerDomainQueue per domain;
  \<open>domains()\<close> enumerates the known domains, \<open>domain_queue(domain)\<close> gives direct access
  (an empty queue for a domain without one).
\<close>

definition get_domains :: "(domain \<times> request list) list \<Rightarrow> domain list" where
  "get_domains sq = map fst sq"

definition get_domain_queue :: "(domain \<times> request list) list \<Rightarrow> domain \<Rightarrow> request list" where
  "get_domain_queue sq d = (case map_of sq d of None \<Rightarrow> [] | Some q \<Rightarrow> q)"

text \<open>Python's \<open>int(x)\<close> on a float truncates toward zero.\<close>

definition py_int :: "real \<Rightarrow> int" where
  "py_int x = (if 0 \<le> x then \<lfloor>x\<rfloor> else \<lceil>x\<rceil>)"

section \<open>QSpider\<close>

definition get_domain_state :: "'x env \<Rightarrow> 'x QSpider \<Rightarrow> domain \<Rightarrow> score_dict" where
  "get_domain_state env st d = MaxScores_getitem env (domain_scores st) d"

text \<open>\<open>_get_action\<close>: \<open>None\<close> for a node without incoming link, else the first link dict.\<close>

definition get_action :: "'x QSpider \<Rightarrow> nat \<Rightarrow> error + link option" where
  "get_action st node_id =
     (case iter_incoming_link_dicts (G st) node_id of
        Inl e \<Rightarrow> Inl e
      | Inr incoming_link_dicts \<Rightarrow>
          (case incoming_link_dicts of [] \<Rightarrow> Inr None | l # ls \<Rightarrow> Inr (Some l)))"

definition get_request_priority :: "'x env \<Rightarrow> 'x QSpider \<Rightarrow> domain \<Rightarrow> nat \<Rightarrow> error + int" where
  "get_request_priority env st d node_id =
     (let s = get_domain_state env st d in
      case get_action st node_id of
        Inl e \<Rightarrow> Inl e
      | Inr a \<Rightarrow>
          (case predict env (rl_model st) s a of
             Inl e \<Rightarrow> Inl e
           | Inr p \<Rightarrow> Inr (py_int (p * FLOAT_PRIORITY_MULTIPLIER env))))"

text \<open>
  Modelled from the spec: \<open>increase_response_count\<close> of \<open>BaseSpider\<close> is missing; it counts
  one more completed fetch.
\<close>

definition increase_response_count :: "'x QSpider \<Rightarrow> 'x QSpider" where
  "increase_response_count st = st\<lparr>response_count := response_count st + 1\<rparr>"

definition update_response_node :: "'x QSpider \<Rightarrow> response \<Rightarrow> nat \<times> 'x QSpider" where
  "update_response_node st resp =
     (let is_seed_url = (resp_node_id resp = None);
          node_id = (case resp_node_id resp of None \<Rightarrow> node_ids st | Some n \<Rightarrow> n);
          st1 = (if is_seed_url then st\<lparr>node_ids := node_ids st + 1\<rparr> else st);
          is_ok = (status resp = 200 \<and> has_text resp)
      in (node_id,
          st1\<lparr>G := add_node (G st1) node_id
                 \<lparr>url = Some (resp_url resp), visited = Some True, ok = Some (Some is_ok),
                  scores = None, response_id = Some (Some (response_count st1))\<rparr>\<rparr>))"

definition store_observed_scores ::
  "'x env \<Rightarrow> 'x QSpider \<Rightarrow> nat \<Rightarrow> response \<Rightarrow> error + (score_dict \<times> 'x QSpider)" where
  "store_observed_scores env st node_id resp =
     (case map_of (node (G st)) node_id of
        None \<Rightarrow> Inl KeyError
      | Some nd \<Rightarrow>
          (case ok nd of
             None \<Rightarrow> Inl KeyError
           | Some is_ok \<Rightarrow>
               (let observed_scores =
                      (if is_ok = Some True then resp_max_scores resp else get_constant_scores env 0)
                in Inr (observed_scores,
                        st\<lparr>G := add_node (G st) node_id (no_attrs\<lparr>scores := Some observed_scores\<rparr>)\<rparr>))))"

definition update_domain_state :: "'x env \<Rightarrow> 'x QSpider \<Rightarrow> nat \<Rightarrow> response \<Rightarrow> error + 'x QSpider" where
  "update_domain_state env st node_id resp =
     (case map_of (node (G st)) node_id of
        None \<Rightarrow> Inl KeyError
      | Some nd \<Rightarrow>
          (case scores nd of
             None \<Rightarrow> Inl KeyError
           | Some sc \<Rightarrow>
               if sc = [] then Inr st
               else Inr (st\<lparr>domain_scores :=
                              MaxScores_update env (domain_scores st) (resp_domain resp) sc\<rparr>)))"

text \<open>
  \<open>on_offdomain_request_dropped\<close>. Modelled from the spec: the handler of \<open>BaseSpider\<close>
  that is called first is missing; the spec gives it no effect on the graph, the
  tracker or the queues.
\<close>

definition on_offdomain_request_dropped :: "'x env \<Rightarrow> 'x QSpider \<Rightarrow> request \<Rightarrow> 'x QSpider" where
  "on_offdomain_request_dropped env st req =
     (case meta_node_id req of
        None \<Rightarrow> st
      | Some node_id \<Rightarrow>
          if node_id = 0 then st
          else st\<lparr>G := add_node (G st) node_id
                        \<lparr>url = None, visited = Some True, ok = Some (Some False),
                         scores = Some (get_constant_scores env 0),
                         response_id = Some (Some (response_count st))\<rparr>\<rparr>)"

text \<open>The local function \<open>_get_priority\<close> of \<open>update_domain_request_priorities\<close>.\<close>

definition get_priority :: "'x env \<Rightarrow> 'x QSpider \<Rightarrow> domain \<Rightarrow> request \<Rightarrow> error + int" where
  "get_priority env st d req =
     (case meta_node_id req of
        None \<Rightarrow> Inr (priority req)
      | Some node_id \<Rightarrow>
          if node_id = 0 then Inr (priority req)
          else get_request_priority env st d node_id)"

definition update_domain_request_priorities :: "'x env \<Rightarrow> 'x QSpider \<Rightarrow> domain \<Rightarrow> 'x QSpider" where
  "update_domain_request_priorities env st d =
     st\<lparr>scheduler_queue :=
          AList.map_entry d (update_all_priorities (get_priority env st d)) (scheduler_queue st)\<rparr>"

definition update_request_priorities :: "'x env \<Rightarrow> 'x QSpider \<Rightarrow> int option \<Rightarrow> 'x QSpider" where
  "update_request_priorities env st min_response_count_arg =
     (let min_response_count =
            (case min_response_count_arg of
               None \<Rightarrow> max 500 (int (MaxScores_len (domain_scores st)))
             | Some m \<Rightarrow> m);
          interval = int (response_count st) - int (scores_recalculated_at st)
      in if min_response_count \<noteq> 0 \<and> interval \<le> min_response_count then st
         else (fold (\<lambda>d s. update_domain_request_priorities env s d)
                    (get_domains (scheduler_queue st)) st)
              \<lparr>scores_recalculated_at := response_count st\<rparr>)"

text \<open>Line 198: the reward of an observation against the state \<open>s_t\<close>.\<close>

definition reward :: "score_dict \<Rightarrow> score_dict \<Rightarrow> real" where
  "reward observed_scores s_t =
     sum_list (map (\<lambda>(k, v). max v 0) (dict_subtract observed_scores s_t))"

text \<open>
  \<open>learn_from_response\<close> returns nothing; the model returns the reward it prints, with the
  new state. \<open>s_t\<close> is a \<open>.copy()\<close> of the domain state, so it is the value of the state
  at that moment whatever \<open>update_domain_state\<close> does afterwards.
\<close>

definition learn_from_response ::
  "'x env \<Rightarrow> 'x QSpider \<Rightarrow> nat \<Rightarrow> response \<Rightarrow> error + (real \<times> 'x QSpider)" where
  "learn_from_response env st node_id resp =
     (let d = resp_domain resp in
      case store_observed_scores env st node_id resp of
        Inl e \<Rightarrow> Inl e
      | Inr (observed_scores, st1) \<Rightarrow>
          (let s_t = get_domain_state env st1 d in
           case update_domain_state env st1 node_id resp of
             Inl e \<Rightarrow> Inl e
           | Inr st2 \<Rightarrow>
               (let s_t1 = get_domain_state env st2 d;
                    r_t1 = reward observed_scores s_t
                in case get_action st2 node_id of
                     Inl e \<Rightarrow> Inl e
                   | Inr a_t \<Rightarrow>
                       if a_t = None \<or> a_t = Some [] then Inr (r_t1, st2)
                       else
                         (let st3 = (if r_t1 > 1 / 10
                                     then update_domain_request_priorities env st2 d else st2)
                          in case (case next_request (get_domain_queue (scheduler_queue st3) d) of
                                     None \<Rightarrow> Inr None
                                   | Some next_req \<Rightarrow>
                                       (case meta_node_id next_req of
                                          None \<Rightarrow> Inr None
                                        | Some next_node_id \<Rightarrow> get_action st3 next_node_id)) of
                               Inl e \<Rightarrow> Inl e
                             | Inr a_t1 \<Rightarrow>
                                 (case update env (rl_model st3) s_t a_t r_t1 s_t1 a_t1 of
                                    Inl e \<Rightarrow> Inl e
                                  | Inr m \<Rightarrow> Inr (r_t1, st3\<lparr>rl_model := m\<rparr>))))))"

text \<open>
  \<open>generate_out_nodes\<close>: the loop over the extracted links. \<open>set_request_domain\<close> stores
  the domain in the meta of the request, where the offsite middleware reads it.
\<close>

fun generate_out_nodes_loop ::
  "'x env \<Rightarrow> 'x QSpider \<Rightarrow> domain \<Rightarrow> nat \<Rightarrow> link list \<Rightarrow> error + ('x QSpider \<times> request list)" where
  "generate_out_nodes_loop env st d this_node_id [] = Inr (st, [])"
| "generate_out_nodes_loop env st d this_node_id (l # ls) =
     (case map_of l ''url'' of
        None \<Rightarrow> Inl KeyError
      | Some u \<Rightarrow>
          (let node_id = node_ids st;
               st1 = st\<lparr>node_ids := node_ids st + 1,
                        G := add_edge
                               (add_node (G st) node_id
                                  \<lparr>url = Some u, visited = Some False, ok = Some None,
                                   scores = None, response_id = Some None\<rparr>)
                               this_node_id node_id l\<rparr>
           in case get_request_priority env st1 d node_id of
                Inl e \<Rightarrow> Inl e
              | Inr p \<Rightarrow>
                  (case generate_out_nodes_loop env st1 d this_node_id ls of
                     Inl e \<Rightarrow> Inl e
                   | Inr (st2, reqs) \<Rightarrow>
                       Inr (st2, \<lparr>req_url = u, priority = p, meta_node_id = Some node_id,
                                  meta_domain = Some d\<rparr> # reqs))))"

definition generate_out_nodes ::
  "'x env \<Rightarrow> 'x QSpider \<Rightarrow> response \<Rightarrow> nat \<Rightarrow> error + ('x QSpider \<times> request list)" where
  "generate_out_nodes env st resp this_node_id =
     generate_out_nodes_loop env st (resp_domain resp) this_node_id (resp_links resp)"

text \<open>
  \<open>parse\<close>, run to its end: the new state and the requests it yields.
\<close>

definition parse :: "'x env \<Rightarrow> 'x QSpider \<Rightarrow> response \<Rightarrow> error + ('x QSpider \<times> request list)" where
  "parse env st resp =
     (case update_response_node (increase_response_count st) resp of
        (node_id, st2) \<Rightarrow>
          (case (case map_of (node (G st2)) node_id of
                   None \<Rightarrow> Inl KeyError
                 | Some nd \<Rightarrow> (case ok nd of None \<Rightarrow> Inl KeyError | Some v \<Rightarrow> Inr (v = Some True))) of
             Inl e \<Rightarrow> Inl e
           | Inr is_ok \<Rightarrow>
               (case (if is_ok then generate_out_nodes env st2 resp node_id else Inr (st2, [])) of
                  Inl e \<Rightarrow> Inl e
                | Inr (st3, reqs) \<Rightarrow>
                    (case learn_from_response env st3 node_id resp of
                       Inl e \<Rightarrow> Inl e
                     | Inr (r_t1, st4) \<Rightarrow> Inr (st4, reqs)))))"

section \<open>The crawl as a transition system\<close>

text \<open>The node ids that a list of requests carries in its meta.\<close>

definition request_ids :: "request list \<Rightarrow> nat set" where
  "request_ids reqs = set (List.map_filter meta_node_id reqs)"

text \<open>
  The states the spider can be in, with the set \<open>ids\<close> of node ids it has handed out in
  request meta so far. The engine calls \<open>parse\<close> with the response of a seed request (no
  node id) or of a request the spider has yielded, and the drop handler with such a
  request; the periodic task runs the sweep; the engine pushes and pops requests of the
  scheduler queues, which hold seed requests and yielded requests only. A callback that
  raises is not a completed transition.
\<close>

inductive reachable :: "'x env \<Rightarrow> 'x QSpider \<Rightarrow> nat set \<Rightarrow> bool" for env :: "'x env" where
  init: "reachable env (QSpider_init g) {}"
| response:
    "reachable env st ids \<Longrightarrow> resp_node_id resp \<in> insert None (Some ` ids) \<Longrightarrow>
     parse env st resp = Inr (st', reqs) \<Longrightarrow>
     reachable env st' (ids \<union> request_ids reqs)"
| dropped:
    "reachable env st ids \<Longrightarrow> meta_node_id req \<in> insert None (Some ` ids) \<Longrightarrow>
     reachable env (on_offdomain_request_dropped env st req) ids"
| sweep:
    "reachable env st ids \<Longrightarrow> reachable env (update_request_priorities env st arg) ids"
| engine:
    "reachable env st ids \<Longrightarrow>
     \<forall>q \<in> snd ` set sq. \<forall>r \<in> set q. meta_node_id r \<in> insert None (Some ` ids) \<Longrightarrow>
     reachable env (st\<lparr>scheduler_queue := sq\<rparr>) ids"

text \<open>
  The invariants of the crawl: node ids come from the counter, the ids in request meta
  are positive, every edge leads to a node whose id went into a request, and the queues
  hold requests without node id or with such an id.
\<close>

definition wf_ids :: "'x QSpider \<Rightarrow> nat set \<Rightarrow> bool" where
  "wf_ids st ids \<longleftrightarrow>
     (\<forall>n nd. map_of (node (G st)) n = Some nd \<longrightarrow> n < node_ids st) \<and>
     (\<forall>n \<in> ids. 0 < n \<and> n < node_ids st) \<and>
     (\<forall>e \<in> set (edge (G st)). fst (snd e) \<in> ids)"

definition queue_ids_ok :: "(domain \<times> request list) list \<Rightarrow> nat set \<Rightarrow> bool" where
  "queue_ids_ok sq ids \<longleftrightarrow>
     (\<forall>q \<in> snd ` set sq. \<forall>r \<in> set q. meta_node_id r \<in> insert None (Some ` ids))"

definition node_ok :: "node_attrs \<Rightarrow> bool" where
  "node_ok nd \<longleftrightarrow> (scores nd \<noteq> None) = (visited nd = Some True)"

definition nodes_ok_except :: "graph \<Rightarrow> nat set \<Rightarrow> bool" where
  "nodes_ok_except g X \<longleftrightarrow> (\<forall>n nd. map_of (node g) n = Some nd \<longrightarrow> n \<notin> X \<longrightarrow> node_ok nd)"

definition crawl_inv :: "'x QSpider \<Rightarrow> nat set \<Rightarrow> bool" where
  "crawl_inv st ids \<longleftrightarrow>
     wf_ids st ids \<and> nodes_ok_except (G st) {} \<and> queue_ids_ok (scheduler_queue st) ids"

text \<open>The first id of the counter, once handed out, is the node of a response.\<close>

definition first_id_visited :: "'x QSpider \<Rightarrow> bool" where
  "first_id_visited st \<longleftrightarrow>
     node_ids st = 0 \<or> (\<exists>nd. map_of (node (G st)) 0 = Some nd \<and> visited nd = Some True)"

section \<open>The tracker with references\<close>

text \<open>
  Modelled from the spec: the class \<open>MaxScores\<close> is missing. Where it matters whether
  two names denote the same dict, the tracker is a store of dict objects (an address is
  an index into \<open>objects\<close>) and a dict from domain to the address of its state.
  \<open>state(domain)\<close> returns a fresh snapshot copy, never a live reference: it allocates a
  new object with the content of the state. \<open>update\<close> writes the running maximum into
  the object of the domain.
\<close>

record MaxScores_store =
  objects :: "score_dict list"
  by_domain :: "(domain \<times> nat) list"

definition MaxScores_ref_getitem :: "'x env \<Rightarrow> MaxScores_store \<Rightarrow> domain \<Rightarrow> nat \<times> MaxScores_store" where
  "MaxScores_ref_getitem env t d =
     (let content = (case map_of (by_domain t) d of
                       None \<Rightarrow> get_constant_scores env 0
                     | Some a \<Rightarrow> objects t ! a)
      in (length (objects t), t\<lparr>objects := objects t @ [content]\<rparr>))"

definition MaxScores_ref_update ::
  "'x env \<Rightarrow> MaxScores_store \<Rightarrow> domain \<Rightarrow> score_dict \<Rightarrow> MaxScores_store" where
  "MaxScores_ref_update env t d observed =
     (case map_of (by_domain t) d of
        None \<Rightarrow>
          t\<lparr>objects := objects t @ [running_max (get_constant_scores env 0) observed],
            by_domain := by_domain t @ [(d, length (objects t))]\<rparr>
      | Some a \<Rightarrow> t\<lparr>objects := (objects t)[a := running_max (objects t ! a) observed]\<rparr>)"

text \<open>Line 277: \<open>get_domain_state\<close> returns the reference it gets from the tracker.\<close>

definition get_domain_state_ref :: "'x env \<Rightarrow> MaxScores_store \<Rightarrow> domain \<Rightarrow> nat \<times> MaxScores_store" where
  "get_domain_state_ref env t d = MaxScores_ref_getitem env t d"

text \<open>Later calls on the tracker: updates, and further reads of a state.\<close>

datatype tracker_call = Update domain score_dict | State domain

fun tracker_calls :: "'x env \<Rightarrow> tracker_call list \<Rightarrow> MaxScores_store \<Rightarrow> MaxScores_store" where
  "tracker_calls env [] t = t"
| "tracker_calls env (Update d observed # cs) t =
     tracker_calls env cs (MaxScores_ref_update env t d observed)"
| "tracker_calls env (State d # cs) t =
     tracker_calls env cs (snd (get_domain_state_ref env t d))"

text \<open>
  Every state the tracker holds is an allocated object, and no two domains share one.
\<close>

definition store_ok :: "MaxScores_store \<Rightarrow> bool" where
  "store_ok t \<longleftrightarrow>
     (\<forall>a \<in> snd ` set (by_domain t). a < length (objects t)) \<and>
     distinct (map fst (by_domain t)) \<and> distinct (map snd (by_domain t))"

text \<open>The tracker as a value: the content of the state of each domain.\<close>

definition tracker_value :: "MaxScores_store \<Rightarrow> (domain \<times> score_dict) list" where
  "tracker_value t = map (\<lambda>(d, a). (d, objects t ! a)) (by_domain t)"

text \<open>An allocated object with content \<open>v\<close> that the tracker does not hold.\<close>

definition private_object :: "MaxScores_store \<Rightarrow> nat \<Rightarrow> score_dict \<Rightarrow> bool" where
  "private_object t a v \<longleftrightarrow>
     store_ok t \<and> a < length (objects t) \<and> a \<notin> snd ` set (by_domain t) \<and> objects t ! a = v"

section \<open>Example inputs\<close>

definition link1 :: link where
  "link1 = [(''url'', ''https://a.test/1''), (''pos'', ''1'')]"

definition link2 :: link where
  "link2 = [(''url'', ''https://b.test/2''), (''pos'', ''2'')]"

definition resp_seed :: response where
  "resp_seed =
     \<lparr>resp_url = ''https://a.test/'', status = 200, has_text = True, resp_node_id = None,
      resp_domain = ''a.test'', resp_max_scores = [(''forms'', 8 / 10)],
      resp_links = [link1, link2]\<rparr>"

definition req1 :: request where
  "req1 = \<lparr>req_url = ''https://a.test/1'', priority = 0, meta_node_id = Some 1,
           meta_domain = Some ''a.test''\<rparr>"

definition req2 :: request where
  "req2 = \<lparr>req_url = ''https://b.test/2'', priority = 0, meta_node_id = Some 2,
           meta_domain = Some ''a.test''\<rparr>"

text \<open>The state after the seed page \<open>resp_seed\<close> has been parsed.\<close>

definition st_seed :: "(score_dict \<times> link option) QSpider" where
  "st_seed =
     \<lparr>G = \<lparr>node = [(0, \<lparr>url = Some ''https://a.test/'', visited = Some True,
                           ok = Some (Some True), scores = Some [(''forms'', 8 / 10)],
                           response_id = Some (Some 1)\<rparr>),
                    (1, \<lparr>url = Some ''https://a.test/1'', visited = Some False,
                           ok = Some None, scores = None, response_id = Some None\<rparr>),
                    (2, \<lparr>url = Some ''https://b.test/2'', visited = Some False,
                           ok = Some None, scores = None, response_id = Some None\<rparr>)],
            edge = [(0, 1, link1), (0, 2, link2)]\<rparr>,
      node_ids = 3, scores_recalculated_at = 0,
      domain_scores = [(''a.test'', [(''forms'', 8 / 10)])],
      rl_model = TDRegressor_init (1 / 2), response_count = 1, scheduler_queue = []\<rparr>"

text \<open>The first request has been popped, its page scores less than the seed page.\<close>

definition st_popped :: "(score_dict \<times> link option) QSpider" where
  "st_popped = st_seed\<lparr>scheduler_queue := [(''a.test'', [req2])]\<rparr>"

definition resp_low :: response where
  "resp_low =
     \<lparr>resp_url = ''https://a.test/1'', status = 200, has_text = True, resp_node_id = Some 1,
      resp_domain = ''a.test'', resp_max_scores = [(''forms'', 5 / 10)], resp_links = []\<rparr>"

definition st_fetched :: "(score_dict \<times> link option) QSpider" where
  "st_fetched = snd (update_response_node (increase_response_count st_popped) resp_low)"

text \<open>
  A later state: 501 responses, a fitted estimator, both requests of the seed page queued.
\<close>

definition st_busy :: "(score_dict \<times> link option) QSpider" where
  "st_busy = st_seed\<lparr>response_count := 501,
                       rl_model := \<lparr>gamma = 1 / 2, Q = [(([], None), 3)]\<rparr>,
                       scheduler_queue := [(''a.test'', [req1, req2])]\<rparr>"

text \<open>An environment whose vectorizers raise on the second link.\<close>

definition env_raising :: "(score_dict \<times> link option) env" where
  "env_raising =
     env0\<lparr>transform := (\<lambda>s a. if a = Some link2 then Inl VectorizerError else Inr (s, a))\<rparr>"

text \<open>
  A seed page without scores and with one link, which leads off the domain; the state
  after it has been parsed, and the request it yields.
\<close>

definition resp_blank :: response where
  "resp_blank =
     \<lparr>resp_url = ''https://a.test/'', status = 200, has_text = True, resp_node_id = None,
      resp_domain = ''a.test'', resp_max_scores = [], resp_links = [link2]\<rparr>"

definition req_off :: request where
  "req_off = \<lparr>req_url = ''https://b.test/2'', priority = 0, meta_node_id = Some 1,
              meta_domain = Some ''a.test''\<rparr>"

definition st_blank :: "(score_dict \<times> link option) QSpider" where
  "st_blank =
     \<lparr>G = \<lparr>node = [(0, \<lparr>url = Some ''https://a.test/'', visited = Some True,
                           ok = Some (Some True), scores = Some [],
                           response_id = Some (Some 1)\<rparr>),
                    (1, \<lparr>url = Some ''https://b.test/2'', visited = Some False,
                           ok = Some None, scores = None, response_id = Some None\<rparr>)],
            edge = [(0, 1, link2)]\<rparr>,
      node_ids = 2, scores_recalculated_at = 0, domain_scores = [],
      rl_model = TDRegressor_init (1 / 2), response_count = 1, scheduler_queue = []\<rparr>"

text \<open>A tracker store that holds the state of one domain, at address 0.\<close>

definition store0 :: MaxScores_store where
  "store0 = \<lparr>objects = [[(''forms'', 8 / 10)]], by_domain = [(''a.test'', 0)]\<rparr>"

section \<open>The estimator\<close>

text \<open>
  C2. For every call of \<open>update(s_t, a_t, r_t1, s_t1, a_t1)\<close>, the sample the regressor is
  fitted on has the features of \<open>(s_t, a_t)\<close> and the target of the specification:
  \<open>r_t1\<close> when \<open>a_t1\<close> is absent or the model has seen no sample, and
  \<open>r_t1 + gamma * predict(s_t1, a_t1)\<close> otherwise. The call raises exactly when one of
  the two vectorizations it needs raises.
\<close>

theorem update_target:
  "update env m s_t a_t r_t1 s_t1 a_t1 =
     (case vectorize env s_t a_t of
        Inl e \<Rightarrow> Inl e
      | Inr X_t \<Rightarrow>
          (case spec_target env m r_t1 s_t1 a_t1 of
             Inl e \<Rightarrow> Inl e
           | Inr target \<Rightarrow> Inr (m\<lparr>Q := Q m @ [(X_t, target)]\<rparr>)))"
  by (simp add: update_def spec_target_def predict_def split: sum.splits)

theorem update_target_witness:
  "update env0 \<lparr>gamma = 1 / 2, Q = [(([], None), 4)]\<rparr> [] (Some [(''url'', ''u'')]) 1 []
       (Some [(''url'', ''v'')])
     = Inr \<lparr>gamma = 1 / 2, Q = [(([], None), 4), (([], Some [(''url'', ''u'')]), 3)]\<rparr>"
  using update_target [of env0 "\<lparr>gamma = 1 / 2, Q = [(([], None), 4)]\<rparr>" "[]"
      "Some [(''url'', ''u'')]" 1 "[]" "Some [(''url'', ''v'')]"]
  by (simp add: spec_target_def predict_def vectorize_def env0_def)

text \<open>
  C3. Before any \<open>update\<close>, the regressor has seen no sample, and \<open>predict\<close> returns exactly
  0.0 for every state and every action (also for the action \<open>None\<close>, and also when the
  vectorizers would raise): it returns a value, never an exception.
\<close>

theorem predict_untrained: "predict env (TDRegressor_init g) s a = Inr 0"
  by (simp add: predict_def TDRegressor_init_def)
section \<open>Facts about the crawl graph\<close>

lemma merge_no_attrs: "merge_attrs old no_attrs = old"
  by (simp add: merge_attrs_def no_attrs_def)

lemma map_of_add_node:
  "map_of (node (add_node g n a)) =
     (map_of (node g))(n \<mapsto> merge_attrs (case map_of (node g) n of None \<Rightarrow> no_attrs | Some old \<Rightarrow> old) a)"
  by (simp add: add_node_def update_conv')

lemma edge_add_node: "edge (add_node g n a) = edge g"
  by (simp add: add_node_def)

lemma map_of_add_edge:
  "map_of (node (add_edge g u v l)) m =
     (if m = u \<or> m = v
      then Some (case map_of (node g) m of None \<Rightarrow> no_attrs | Some old \<Rightarrow> old)
      else map_of (node g) m)"
  by (auto simp: add_edge_def Let_def map_of_add_node merge_no_attrs)

lemma edge_add_edge_target:
  "e \<in> set (edge (add_edge g u v l)) \<Longrightarrow> fst (snd e) = v \<or> fst (snd e) \<in> (\<lambda>e. fst (snd e)) ` set (edge g)"
  by (auto simp: add_edge_def Let_def edge_add_node split: if_splits)

lemma request_ids_Nil: "request_ids [] = {}"
  by (simp add: request_ids_def List.map_filter_simps)

lemma request_ids_Cons:
  "request_ids (r # reqs) =
     (case meta_node_id r of None \<Rightarrow> request_ids reqs | Some n \<Rightarrow> insert n (request_ids reqs))"
  by (simp add: request_ids_def List.map_filter_simps split: option.splits)

lemma wf_ids_mono: "wf_ids st ids \<Longrightarrow> n \<in> ids \<Longrightarrow> 0 < n \<and> n < node_ids st"
  by (simp add: wf_ids_def)

text \<open>One round of the loop of \<open>generate_out_nodes\<close>: a fresh node and an edge to it.\<close>

lemma discover_step:
  assumes wf: "wf_ids st ids"
    and src: "src < node_ids st" "map_of (node (G st)) src = Some nd0"
    and oks: "nodes_ok_except (G st) {src}"
    and st1: "st1 = st\<lparr>node_ids := node_ids st + 1,
                       G := add_edge
                              (add_node (G st) (node_ids st)
                                 \<lparr>url = Some u, visited = Some False, ok = Some None,
                                  scores = None, response_id = Some None\<rparr>)
                              src (node_ids st) l\<rparr>"
  shows "wf_ids st1 (insert (node_ids st) ids)"
    and "src < node_ids st1"
    and "map_of (node (G st1)) src = Some nd0"
    and "nodes_ok_except (G st1) {src}"
    and "\<forall>m < node_ids st. map_of (node (G st1)) m = map_of (node (G st)) m"
proof -
  from wf src have fresh: "map_of (node (G st)) (node_ids st) = None"
    by (cases "map_of (node (G st)) (node_ids st)") (auto simp: wf_ids_def)
  from src have neq: "src \<noteq> node_ids st" by simp
  have cnt: "node_ids st1 = node_ids st + 1"
    by (simp add: st1)
  have g1: "G st1 = add_edge (add_node (G st) (node_ids st)
                 \<lparr>url = Some u, visited = Some False, ok = Some None,
                  scores = None, response_id = Some None\<rparr>) src (node_ids st) l"
    by (simp add: st1)
  have nodes: "map_of (node (G st1)) m =
      (if m = node_ids st
       then Some \<lparr>url = Some u, visited = Some False, ok = Some None, scores = None,
                  response_id = Some None\<rparr>
       else map_of (node (G st)) m)" for m
    using fresh neq src
    by (auto simp: g1 map_of_add_edge map_of_add_node merge_attrs_def no_attrs_def)
  show "wf_ids st1 (insert (node_ids st) ids)"
    unfolding wf_ids_def
  proof (intro conjI allI impI ballI)
    fix n nd assume "map_of (node (G st1)) n = Some nd"
    then have "n = node_ids st \<or> map_of (node (G st)) n = Some nd"
      by (auto simp: nodes split: if_splits)
    with wf show "n < node_ids st1"
      by (auto simp: cnt wf_ids_def dest: less_SucI)
  next
    fix n assume "n \<in> insert (node_ids st) ids"
    with wf src show "0 < n" "n < node_ids st1"
      by (auto simp: cnt wf_ids_def dest: less_SucI)
  next
    fix e assume "e \<in> set (edge (G st1))"
    then have "e \<in> set (edge (add_edge (add_node (G st) (node_ids st)
                 \<lparr>url = Some u, visited = Some False, ok = Some None,
                  scores = None, response_id = Some None\<rparr>) src (node_ids st) l))"
      by (simp add: g1)
    from edge_add_edge_target [OF this] wf
    show "fst (snd e) \<in> insert (node_ids st) ids"
      by (auto simp: edge_add_node wf_ids_def)
  qed
  show "src < node_ids st1" using src by (simp add: cnt)
  show "map_of (node (G st1)) src = Some nd0" using src neq by (simp add: nodes)
  show "nodes_ok_except (G st1) {src}"
    using oks by (auto simp: nodes_ok_except_def nodes node_ok_def split: if_splits)
  show "\<forall>m < node_ids st. map_of (node (G st1)) m = map_of (node (G st)) m"
    by (simp add: nodes)
qed

lemma generate_out_nodes_loop_inv:
  assumes "generate_out_nodes_loop env st d src ls = Inr (st', reqs)"
    and "wf_ids st ids"
    and "src < node_ids st" "map_of (node (G st)) src = Some nd0"
    and "nodes_ok_except (G st) {src}"
  shows "wf_ids st' (ids \<union> request_ids reqs) \<and> map_of (node (G st')) src = Some nd0 \<and>
         nodes_ok_except (G st') {src} \<and> scheduler_queue st' = scheduler_queue st \<and>
         node_ids st \<le> node_ids st' \<and>
         (\<forall>m < node_ids st. map_of (node (G st')) m = map_of (node (G st)) m)"
  using assms
proof (induction ls arbitrary: st ids reqs)
  case Nil
  then show ?case by (simp add: request_ids_Nil)
next
  case (Cons l ls)
  define u where "u = the (map_of l ''url'')"
  define st1 where "st1 = st\<lparr>node_ids := node_ids st + 1,
                       G := add_edge
                              (add_node (G st) (node_ids st)
                                 \<lparr>url = Some u, visited = Some False, ok = Some None,
                                  scores = None, response_id = Some None\<rparr>)
                              src (node_ids st) l\<rparr>"
  from Cons.prems(1) obtain p reqs' where
    rest: "generate_out_nodes_loop env st1 d src ls = Inr (st', reqs')" and
    reqs: "reqs = \<lparr>req_url = u, priority = p, meta_node_id = Some (node_ids st),
                    meta_domain = Some d\<rparr> # reqs'"
    by (auto simp: Let_def u_def st1_def split: option.splits sum.splits prod.splits)
  note step = discover_step [OF Cons.prems(2) Cons.prems(3) Cons.prems(4) Cons.prems(5) st1_def]
  from Cons.IH [OF rest step(1-4)]
  have "wf_ids st' (insert (node_ids st) ids \<union> request_ids reqs')"
    and "map_of (node (G st')) src = Some nd0"
    and "nodes_ok_except (G st') {src}"
    and "scheduler_queue st' = scheduler_queue st1"
    and "node_ids st1 \<le> node_ids st'"
    and old: "\<forall>m < node_ids st1. map_of (node (G st')) m = map_of (node (G st1)) m"
    by simp_all
  moreover have "\<forall>m < node_ids st. map_of (node (G st')) m = map_of (node (G st)) m"
    using old step(5) by (simp add: st1_def)
  ultimately show ?case
    by (simp add: reqs request_ids_Cons st1_def)
qed

lemma store_observed_scores_frame:
  "store_observed_scores env st node_id resp = Inr (observed, st1) \<Longrightarrow>
     domain_scores st1 = domain_scores st \<and> rl_model st1 = rl_model st \<and>
     scheduler_queue st1 = scheduler_queue st \<and> edge (G st1) = edge (G st) \<and>
     node_ids st1 = node_ids st"
  by (auto simp: store_observed_scores_def add_node_def Let_def split: option.splits)

lemma update_domain_state_frame:
  "update_domain_state env st node_id resp = Inr st2 \<Longrightarrow>
     G st2 = G st \<and> rl_model st2 = rl_model st \<and> scheduler_queue st2 = scheduler_queue st \<and>
     node_ids st2 = node_ids st"
  by (auto simp: update_domain_state_def split: option.splits if_splits)

section \<open>The transitions keep the invariants\<close>

lemma update_all_priorities_meta:
  "map meta_node_id (update_all_priorities f q) = map meta_node_id q"
  by (simp add: update_all_priorities_def split: sum.splits)

lemma update_all_priorities_ids:
  assumes "\<forall>r \<in> set q. meta_node_id r \<in> insert None (Some ` ids)"
  shows "\<forall>r \<in> set (update_all_priorities f q). meta_node_id r \<in> insert None (Some ` ids)"
  using assms by (auto simp: update_all_priorities_def split: sum.splits)

lemma queue_ids_ok_map_entry:
  "queue_ids_ok sq ids \<Longrightarrow>
     queue_ids_ok (AList.map_entry d (update_all_priorities f) sq) ids"
proof (induction sq)
  case Nil
  then show ?case by simp
next
  case (Cons p sq)
  then show ?case
    using update_all_priorities_ids [of "snd p" ids f]
    by (auto simp: queue_ids_ok_def)
qed

lemma queue_ids_ok_mono: "queue_ids_ok sq ids \<Longrightarrow> ids \<subseteq> ids' \<Longrightarrow> queue_ids_ok sq ids'"
  unfolding queue_ids_ok_def by blast

lemma update_domain_request_priorities_frame:
  "G (update_domain_request_priorities env st d) = G st"
  "node_ids (update_domain_request_priorities env st d) = node_ids st"
  "rl_model (update_domain_request_priorities env st d) = rl_model st"
  "domain_scores (update_domain_request_priorities env st d) = domain_scores st"
  "response_count (update_domain_request_priorities env st d) = response_count st"
  "scores_recalculated_at (update_domain_request_priorities env st d) = scores_recalculated_at st"
  by (simp_all add: update_domain_request_priorities_def)

lemma update_domain_request_priorities_queue_ids:
  "queue_ids_ok (scheduler_queue st) ids \<Longrightarrow>
     queue_ids_ok (scheduler_queue (update_domain_request_priorities env st d)) ids"
  by (simp add: update_domain_request_priorities_def queue_ids_ok_map_entry)

lemma crawl_inv_update_domain_request_priorities:
  "crawl_inv st ids \<Longrightarrow> crawl_inv (update_domain_request_priorities env st d) ids"
  by (simp add: crawl_inv_def wf_ids_def update_domain_request_priorities_frame
      update_domain_request_priorities_queue_ids)

lemma crawl_inv_fold_sweep:
  "crawl_inv st ids \<Longrightarrow>
     crawl_inv (fold (\<lambda>d s. update_domain_request_priorities env s d) ds st) ids"
  by (induction ds arbitrary: st) (simp_all add: crawl_inv_update_domain_request_priorities)

lemma crawl_inv_update_request_priorities:
  assumes "crawl_inv st ids"
  shows "crawl_inv (update_request_priorities env st arg) ids"
proof -
  have "crawl_inv (s\<lparr>scores_recalculated_at := x\<rparr>) ids = crawl_inv s ids" for s :: "'a QSpider" and x
    by (simp add: crawl_inv_def wf_ids_def)
  with assms crawl_inv_fold_sweep [OF assms] show ?thesis
    by (simp add: update_request_priorities_def Let_def)
qed

lemma crawl_inv_dropped:
  assumes inv: "crawl_inv st ids"
    and req: "meta_node_id req \<in> insert None (Some ` ids)"
  shows "crawl_inv (on_offdomain_request_dropped env st req) ids"
proof (cases "meta_node_id req")
  case None
  with inv show ?thesis by (simp add: on_offdomain_request_dropped_def)
next
  case (Some n)
  with req have n: "n \<in> ids" by auto
  with inv have pos: "0 < n" "n < node_ids st"
    by (auto simp: crawl_inv_def wf_ids_def)
  let ?attrs = "\<lparr>url = None, visited = Some True, ok = Some (Some False),
                  scores = Some (get_constant_scores env 0),
                  response_id = Some (Some (response_count st))\<rparr>"
  have st': "on_offdomain_request_dropped env st req = st\<lparr>G := add_node (G st) n ?attrs\<rparr>"
    using Some pos by (simp add: on_offdomain_request_dropped_def)
  have new: "node_ok (merge_attrs old ?attrs)" for old
    by (simp add: node_ok_def merge_attrs_def)
  from inv pos new show ?thesis
    unfolding st' crawl_inv_def wf_ids_def nodes_ok_except_def
    by (auto simp: map_of_add_node edge_add_node split: if_splits)
qed

lemma crawl_inv_engine:
  "crawl_inv st ids \<Longrightarrow> queue_ids_ok sq ids \<Longrightarrow> crawl_inv (st\<lparr>scheduler_queue := sq\<rparr>) ids"
  by (simp add: crawl_inv_def wf_ids_def)

lemma update_response_node_inv:
  assumes wf: "wf_ids st ids" and oks: "nodes_ok_except (G st) {}"
    and resp: "resp_node_id resp \<in> insert None (Some ` ids)"
    and run: "update_response_node st resp = (n, st2)"
  shows "wf_ids st2 ids"
    and "n < node_ids st2"
    and "\<exists>nd0. map_of (node (G st2)) n = Some nd0 \<and> visited nd0 = Some True \<and> ok nd0 \<noteq> None"
    and "nodes_ok_except (G st2) {n}"
    and "scheduler_queue st2 = scheduler_queue st"
proof -
  let ?attrs = "\<lparr>url = Some (resp_url resp), visited = Some True,
                  ok = Some (Some (status resp = 200 \<and> has_text resp)),
                  scores = None,
                  response_id = Some (Some (response_count st))\<rparr>"
  from run have n: "n = (case resp_node_id resp of None \<Rightarrow> node_ids st | Some m \<Rightarrow> m)"
    and cnt: "node_ids st2 = (if resp_node_id resp = None then node_ids st + 1 else node_ids st)"
    and g2: "G st2 = add_node (G st) n ?attrs"
    and q2: "scheduler_queue st2 = scheduler_queue st"
    by (auto simp: update_response_node_def Let_def)
  from wf resp show lt: "n < node_ids st2"
    by (auto simp: n cnt wf_ids_def split: option.splits)
  from wf lt show "wf_ids st2 ids"
    unfolding wf_ids_def
    by (auto simp: g2 cnt map_of_add_node edge_add_node split: if_splits dest: less_SucI)
  show "\<exists>nd0. map_of (node (G st2)) n = Some nd0 \<and> visited nd0 = Some True \<and> ok nd0 \<noteq> None"
    by (simp add: g2 map_of_add_node merge_attrs_def)
  from oks show "nodes_ok_except (G st2) {n}"
    by (auto simp: nodes_ok_except_def g2 map_of_add_node)
  show "scheduler_queue st2 = scheduler_queue st" by (rule q2)
qed

lemma learn_from_response_frame:
  assumes run: "learn_from_response env st n resp = Inr (r, st')"
  shows "\<exists>observed. G st' = add_node (G st) n (no_attrs\<lparr>scores := Some observed\<rparr>)"
    and "node_ids st' = node_ids st"
    and "queue_ids_ok (scheduler_queue st) ids \<Longrightarrow> queue_ids_ok (scheduler_queue st') ids"
proof -
  from run obtain observed st1 st2 where
    s1: "store_observed_scores env st n resp = Inr (observed, st1)" and
    s2: "update_domain_state env st1 n resp = Inr st2" and
    cases: "st' = st2 \<or> (\<exists>m. st' = st2\<lparr>rl_model := m\<rparr>) \<or>
            (\<exists>m. st' = (update_domain_request_priorities env st2 (resp_domain resp))\<lparr>rl_model := m\<rparr>)"
    by (auto simp: learn_from_response_def Let_def split: sum.splits prod.splits if_splits)
  from s1 have g1: "G st1 = add_node (G st) n (no_attrs\<lparr>scores := Some observed\<rparr>)"
    by (auto simp: store_observed_scores_def Let_def split: option.splits)
  from s1 have f1: "node_ids st1 = node_ids st" "scheduler_queue st1 = scheduler_queue st"
    by (simp_all add: store_observed_scores_frame)
  from s2 have f2: "G st2 = G st1" "node_ids st2 = node_ids st1"
      "scheduler_queue st2 = scheduler_queue st1"
    by (simp_all add: update_domain_state_frame)
  from cases g1 f2 show "\<exists>observed. G st' = add_node (G st) n (no_attrs\<lparr>scores := Some observed\<rparr>)"
    by (auto simp: update_domain_request_priorities_frame)
  from cases f1 f2 show "node_ids st' = node_ids st"
    by (auto simp: update_domain_request_priorities_frame)
  show "queue_ids_ok (scheduler_queue st') ids" if "queue_ids_ok (scheduler_queue st) ids"
    using cases that f1 f2 update_domain_request_priorities_queue_ids [of st2 ids env "resp_domain resp"]
    by auto
qed

lemma parse_steps:
  assumes "parse env st resp = Inr (st', reqs)"
  obtains n st2 st3 r where
    "update_response_node (increase_response_count st) resp = (n, st2)"
    "generate_out_nodes_loop env st2 (resp_domain resp) n (resp_links resp) = Inr (st3, reqs)
       \<or> (st3 = st2 \<and> reqs = [])"
    "learn_from_response env st3 n resp = Inr (r, st')"
proof -
  obtain n st2 where urn: "update_response_node (increase_response_count st) resp = (n, st2)"
    by (cases "update_response_node (increase_response_count st) resp")
  from assms urn obtain st3 r where
    "(generate_out_nodes env st2 resp n = Inr (st3, reqs)) \<or> (st3 = st2 \<and> reqs = [])"
    "learn_from_response env st3 n resp = Inr (r, st')"
    by (auto simp: parse_def split: sum.splits prod.splits option.splits if_splits)
  with urn that show thesis
    by (simp add: generate_out_nodes_def)
qed

lemma crawl_inv_parse:
  assumes inv: "crawl_inv st ids"
    and resp: "resp_node_id resp \<in> insert None (Some ` ids)"
    and run: "parse env st resp = Inr (st', reqs)"
  shows "crawl_inv st' (ids \<union> request_ids reqs)"
proof -
  from run obtain n st2 st3 r where
    urn: "update_response_node (increase_response_count st) resp = (n, st2)" and
    gen: "generate_out_nodes_loop env st2 (resp_domain resp) n (resp_links resp) = Inr (st3, reqs)
            \<or> (st3 = st2 \<and> reqs = [])" and
    learn: "learn_from_response env st3 n resp = Inr (r, st')"
    by (rule parse_steps)
  have wf0: "wf_ids (increase_response_count st) ids"
    and ok0: "nodes_ok_except (G (increase_response_count st)) {}"
    and q0: "scheduler_queue (increase_response_count st) = scheduler_queue st"
    using inv by (simp_all add: crawl_inv_def wf_ids_def increase_response_count_def)
  note u = update_response_node_inv [OF wf0 ok0 resp urn]
  from u(3) obtain nd0 where nd0: "map_of (node (G st2)) n = Some nd0" "visited nd0 = Some True"
    by blast
  have st3: "wf_ids st3 (ids \<union> request_ids reqs) \<and> map_of (node (G st3)) n = Some nd0 \<and>
             nodes_ok_except (G st3) {n} \<and> scheduler_queue st3 = scheduler_queue st2"
    using gen
  proof
    assume "generate_out_nodes_loop env st2 (resp_domain resp) n (resp_links resp) = Inr (st3, reqs)"
    from generate_out_nodes_loop_inv [OF this u(1) u(2) nd0(1) u(4)] show ?thesis
      by simp
  next
    assume "st3 = st2 \<and> reqs = []"
    with u nd0 show ?thesis by (simp add: request_ids_Nil)
  qed
  note l = learn_from_response_frame [OF learn]
  from l(1) obtain observed where g': "G st' = add_node (G st3) n (no_attrs\<lparr>scores := Some observed\<rparr>)"
    by blast
  have n_ok: "node_ok (merge_attrs nd0 (no_attrs\<lparr>scores := Some observed\<rparr>))"
    using nd0(2) by (simp add: node_ok_def merge_attrs_def no_attrs_def)
  have "wf_ids st' (ids \<union> request_ids reqs)"
    using st3 l(2) unfolding wf_ids_def
    by (auto simp: g' map_of_add_node edge_add_node split: if_splits)
  moreover have "nodes_ok_except (G st') {}"
    using st3 n_ok unfolding nodes_ok_except_def
    by (auto simp: g' map_of_add_node split: if_splits)
  moreover have "queue_ids_ok (scheduler_queue st') (ids \<union> request_ids reqs)"
  proof -
    from inv have "queue_ids_ok (scheduler_queue st) ids" by (simp add: crawl_inv_def)
    then have "queue_ids_ok (scheduler_queue st3) (ids \<union> request_ids reqs)"
      using st3 u(5) q0 by (auto intro: queue_ids_ok_mono)
    then show ?thesis by (rule l(3))
  qed
  ultimately show ?thesis by (simp add: crawl_inv_def)
qed

lemma first_id_visited_parse:
  assumes inv: "crawl_inv st ids" and first: "first_id_visited st"
    and resp: "resp_node_id resp \<in> insert None (Some ` ids)"
    and run: "parse env st resp = Inr (st', reqs)"
  shows "first_id_visited st'"
proof -
  from run obtain n st2 st3 r where
    urn: "update_response_node (increase_response_count st) resp = (n, st2)" and
    gen: "generate_out_nodes_loop env st2 (resp_domain resp) n (resp_links resp) = Inr (st3, reqs)
            \<or> (st3 = st2 \<and> reqs = [])" and
    learn: "learn_from_response env st3 n resp = Inr (r, st')"
    by (rule parse_steps)
  have wf0: "wf_ids (increase_response_count st) ids"
    and ok0: "nodes_ok_except (G (increase_response_count st)) {}"
    using inv by (simp_all add: crawl_inv_def wf_ids_def increase_response_count_def)
  note u = update_response_node_inv [OF wf0 ok0 resp urn]
  from u(3) obtain nd0 where nd0: "map_of (node (G st2)) n = Some nd0" "visited nd0 = Some True"
    by blast
  have v2: "\<exists>nd. map_of (node (G st2)) 0 = Some nd \<and> visited nd = Some True"
  proof (cases "n = 0")
    case True
    with nd0 show ?thesis by simp
  next
    case False
    from inv resp have "resp_node_id resp = None \<or> node_ids st \<noteq> 0"
      by (auto simp: crawl_inv_def wf_ids_def)
    with False urn have "node_ids st \<noteq> 0"
      by (auto simp: update_response_node_def increase_response_count_def Let_def)
    with first obtain nd where "map_of (node (G st)) 0 = Some nd" "visited nd = Some True"
      by (auto simp: first_id_visited_def)
    with False urn show ?thesis
      by (auto simp: update_response_node_def increase_response_count_def Let_def map_of_add_node)
  qed
  have v3: "\<exists>nd. map_of (node (G st3)) 0 = Some nd \<and> visited nd = Some True"
    using gen
  proof
    assume "generate_out_nodes_loop env st2 (resp_domain resp) n (resp_links resp) = Inr (st3, reqs)"
    from generate_out_nodes_loop_inv [OF this u(1) u(2) nd0(1) u(4)] u(2)
    have "map_of (node (G st3)) 0 = map_of (node (G st2)) 0"
      by auto
    with v2 show ?thesis by simp
  next
    assume "st3 = st2 \<and> reqs = []"
    with v2 show ?thesis by simp
  qed
  from learn_from_response_frame(1) [OF learn] obtain observed where
    "G st' = add_node (G st3) n (no_attrs\<lparr>scores := Some observed\<rparr>)"
    by blast
  with v3 nd0 have "\<exists>nd. map_of (node (G st')) 0 = Some nd \<and> visited nd = Some True"
    by (auto simp: map_of_add_node merge_attrs_def no_attrs_def)
  then show ?thesis by (simp add: first_id_visited_def)
qed

lemma first_id_visited_dropped:
  assumes inv: "crawl_inv st ids" and first: "first_id_visited st"
    and req: "meta_node_id req \<in> insert None (Some ` ids)"
  shows "first_id_visited (on_offdomain_request_dropped env st req)"
proof (cases "meta_node_id req")
  case None
  with first show ?thesis by (simp add: on_offdomain_request_dropped_def)
next
  case (Some n)
  with req inv have "0 < n" by (auto simp: crawl_inv_def wf_ids_def)
  with first Some show ?thesis
    by (auto simp: first_id_visited_def on_offdomain_request_dropped_def map_of_add_node)
qed

lemma sweep_graph:
  "G (fold (\<lambda>d s. update_domain_request_priorities env s d) ds st) = G st \<and>
   node_ids (fold (\<lambda>d s. update_domain_request_priorities env s d) ds st) = node_ids st"
  by (induction ds arbitrary: st) (simp_all add: update_domain_request_priorities_frame)

lemma first_id_visited_sweep:
  "first_id_visited st \<Longrightarrow> first_id_visited (update_request_priorities env st arg)"
  by (simp add: first_id_visited_def update_request_priorities_def Let_def sweep_graph)

lemma crawl_inv_init: "crawl_inv (QSpider_init g) {}"
  by (simp add: crawl_inv_def wf_ids_def nodes_ok_except_def queue_ids_ok_def QSpider_init_def
      empty_graph_def)

lemma reachable_crawl_inv: "reachable env st ids \<Longrightarrow> crawl_inv st ids"
proof (induction rule: reachable.induct)
  case (init g)
  show ?case by (rule crawl_inv_init)
next
  case (response st ids resp st' reqs)
  then show ?case by (simp add: crawl_inv_parse)
next
  case (dropped st ids req)
  then show ?case by (simp add: crawl_inv_dropped)
next
  case (sweep st ids arg)
  then show ?case by (simp add: crawl_inv_update_request_priorities)
next
  case (engine st ids sq)
  then show ?case by (simp add: crawl_inv_engine queue_ids_ok_def)
qed

lemma reachable_first_id_visited: "reachable env st ids \<Longrightarrow> first_id_visited st"
proof (induction rule: reachable.induct)
  case (init g)
  show ?case by (simp add: first_id_visited_def QSpider_init_def)
next
  case (response st ids resp st' reqs)
  then show ?case
    by (auto intro: first_id_visited_parse dest: reachable_crawl_inv)
next
  case (dropped st ids req)
  then show ?case
    by (auto intro: first_id_visited_dropped dest: reachable_crawl_inv)
next
  case (sweep st ids arg)
  then show ?case by (simp add: first_id_visited_sweep)
next
  case (engine st ids sq)
  then show ?case by (simp add: first_id_visited_def)
qed

section \<open>Learning from a response\<close>

lemma reward_nonneg: "0 \<le> reward observed s_t"
  unfolding reward_def by (rule sum_list_nonneg) auto

lemma reward_eq:
  "reward observed s_t = (\<Sum>(k, v)\<leftarrow>observed. max (v - dict_get0 s_t k) 0)"
  by (simp add: reward_def dict_subtract_def comp_def case_prod_unfold)

text \<open>
  C1. Whenever \<open>learn_from_response\<close> completes, the reward \<open>r_t1\<close> it computes is the sum,
  over the score types of the observed scores, of \<open>max(observed_scores[k] - s_t[k], 0)\<close>,
  where \<open>s_t\<close> is the state of the domain in the tracker before the call (so before
  \<open>update_domain_state\<close>), and \<open>r_t1\<close> is never negative.
\<close>

theorem learn_from_response_reward:
  assumes "learn_from_response env st node_id resp = Inr (r_t1, st')"
  shows "\<exists>observed st1.
           store_observed_scores env st node_id resp = Inr (observed, st1) \<and>
           r_t1 = (\<Sum>(k, v)\<leftarrow>observed.
                     max (v - dict_get0 (get_domain_state env st (resp_domain resp)) k) 0) \<and>
           0 \<le> r_t1"
proof -
  from assms obtain observed st1 where
    s: "store_observed_scores env st node_id resp = Inr (observed, st1)" and
    r: "r_t1 = reward observed (get_domain_state env st1 (resp_domain resp))"
    by (auto simp: learn_from_response_def Let_def split: sum.splits if_splits prod.splits)
  from s have "get_domain_state env st1 (resp_domain resp) = get_domain_state env st (resp_domain resp)"
    by (simp add: get_domain_state_def store_observed_scores_frame)
  with r have r': "r_t1 = reward observed (get_domain_state env st (resp_domain resp))"
    by simp
  have "0 \<le> r_t1"
    unfolding r' by (rule reward_nonneg)
  with s r' show ?thesis
    unfolding reward_eq by blast
qed

text \<open>
  The page of node 1 scores 0.5 where the domain's best is 0.8: the reward is 0.
\<close>

theorem learn_from_response_reward_witness:
  "\<exists>st'. learn_from_response env0 st_fetched 1 resp_low = Inr (0, st') \<and>
     (\<exists>observed st1.
        store_observed_scores env0 st_fetched 1 resp_low = Inr (observed, st1) \<and>
        (0::real) = (\<Sum>(k, v)\<leftarrow>observed.
                  max (v - dict_get0 (get_domain_state env0 st_fetched (resp_domain resp_low)) k) 0) \<and>
        (0::real) \<le> 0)"
proof -
  have "case learn_from_response env0 st_fetched 1 resp_low of
          Inl e \<Rightarrow> False | Inr (r, st') \<Rightarrow> r = 0"
    by code_simp
  then obtain st' where ex: "learn_from_response env0 st_fetched 1 resp_low = Inr (0, st')"
    by (auto split: sum.splits)
  from learn_from_response_reward [OF ex] ex show ?thesis by blast
qed

lemma get_action_seed:
  assumes "\<forall>e \<in> set (edge (G st)). fst (snd e) \<noteq> node_id"
    and "get_action st node_id = Inr a"
  shows "a = None"
proof -
  from assms(1) have "filter (\<lambda>e. fst (snd e) = node_id) (edge (G st)) = []"
    by (simp add: filter_empty_conv)
  with assms(2) show ?thesis
    by (simp add: get_action_def iter_incoming_link_dicts_def split: if_splits)
qed

text \<open>
  C4. For a response whose node has no incoming edge in the crawl graph (a seed node),
  \<open>learn_from_response\<close> returns before it reaches \<open>rl_model.update\<close>: the estimator is
  left as it was.
\<close>

theorem seed_node_never_learns:
  assumes seed: "\<forall>e \<in> set (edge (G st)). fst (snd e) \<noteq> node_id"
    and run: "learn_from_response env st node_id resp = Inr (r_t1, st')"
  shows "rl_model st' = rl_model st"
proof -
  from run obtain observed st1 st2 a_t where
    s1: "store_observed_scores env st node_id resp = Inr (observed, st1)" and
    s2: "update_domain_state env st1 node_id resp = Inr st2" and
    a: "get_action st2 node_id = Inr a_t"
    by (auto simp: learn_from_response_def Let_def split: sum.splits prod.splits)
  from s1 s2 have e: "edge (G st2) = edge (G st)" and m: "rl_model st2 = rl_model st"
    by (simp_all add: store_observed_scores_frame update_domain_state_frame)
  from seed e have "\<forall>e \<in> set (edge (G st2)). fst (snd e) \<noteq> node_id"
    by simp
  from get_action_seed [OF this a] have "a_t = None" .
  with run s1 s2 a have "st' = st2"
    by (simp add: learn_from_response_def Let_def)
  with m show ?thesis by simp
qed

theorem seed_node_never_learns_witness:
  "filter (\<lambda>e. fst (snd e) = 0) (edge (G st_seed)) = [] \<and>
   (\<exists>r st'. learn_from_response env0 st_seed 0 resp_seed = Inr (r, st') \<and>
      rl_model st' = rl_model st_seed)"
proof -
  have seed: "\<forall>e \<in> set (edge (G st_seed)). fst (snd e) \<noteq> 0"
    by (simp add: st_seed_def)
  have "case learn_from_response env0 st_seed 0 resp_seed of Inl e \<Rightarrow> False | Inr p \<Rightarrow> True"
    by code_simp
  then obtain r st' where run: "learn_from_response env0 st_seed 0 resp_seed = Inr (r, st')"
    by (auto split: sum.splits)
  have "filter (\<lambda>e. fst (snd e) = 0) (edge (G st_seed)) = []"
    by (simp add: st_seed_def)
  with seed_node_never_learns [OF seed run] run show ?thesis by blast
qed

section \<open>The crawl graph over the whole crawl\<close>

lemma parse_seed: "parse env0 (QSpider_init (1 / 2)) resp_seed = Inr (st_seed, [req1, req2])"
  by code_simp

lemma reachable_st_seed: "reachable env0 st_seed (request_ids [req1, req2])"
  using reachable.response [OF reachable.init [of env0 "1 / 2"] _ parse_seed]
  by (simp add: resp_seed_def)



text \<open>
  C10. A missing node id is detected by truthiness: a dropped request whose node id is 0
  is handled like one without node id (nothing changes), and in a sweep a request whose
  node id is 0 keeps its priority, wherever it stands in the queue. This only ever
  concerns requests without node id: once the counter has handed out its first id 0,
  node 0 is the node of a response and no edge leads to it (a seed), and 0 is never in
  the meta of a request the spider yields or of a queued request.
\<close>

theorem node_id_zero_is_missing:
  assumes "reachable env st ids"
  shows "on_offdomain_request_dropped env st (req\<lparr>meta_node_id := Some 0\<rparr>) = st \<and>
         on_offdomain_request_dropped env st (req\<lparr>meta_node_id := None\<rparr>) = st \<and>
         get_priority env st d (req\<lparr>meta_node_id := Some 0\<rparr>) = Inr (priority req) \<and>
         update_all_priorities (get_priority env st d) (q1 @ req\<lparr>meta_node_id := Some 0\<rparr> # q2)
           = update_all_priorities (get_priority env st d) q1 @ req\<lparr>meta_node_id := Some 0\<rparr>
               # update_all_priorities (get_priority env st d) q2 \<and>
         0 \<notin> ids \<and>
         (node_ids st = 0 \<or>
            (\<exists>nd. map_of (node (G st)) 0 = Some nd \<and> visited nd = Some True)) \<and>
         (\<forall>e \<in> set (edge (G st)). fst (snd e) \<noteq> 0) \<and>
         (\<forall>q \<in> snd ` set (scheduler_queue st). \<forall>r \<in> set q. meta_node_id r \<noteq> Some 0)"
proof -
  from reachable_crawl_inv [OF assms] have inv: "crawl_inv st ids" .
  then have zero: "0 \<notin> ids"
    by (auto simp: crawl_inv_def wf_ids_def)
  from inv zero have "\<forall>e \<in> set (edge (G st)). fst (snd e) \<noteq> 0"
    by (auto simp: crawl_inv_def wf_ids_def)
  moreover from inv zero
  have "\<forall>q \<in> snd ` set (scheduler_queue st). \<forall>r \<in> set q. meta_node_id r \<noteq> Some 0"
    unfolding crawl_inv_def queue_ids_ok_def by fastforce
  moreover from reachable_first_id_visited [OF assms]
  have "node_ids st = 0 \<or> (\<exists>nd. map_of (node (G st)) 0 = Some nd \<and> visited nd = Some True)"
    by (simp add: first_id_visited_def)
  ultimately show ?thesis
    using zero
    by (simp add: on_offdomain_request_dropped_def get_priority_def update_all_priorities_def)
qed

theorem node_id_zero_is_missing_witness:
  "reachable env0 st_seed (request_ids [req1, req2]) \<and>
   on_offdomain_request_dropped env0 st_seed (req1\<lparr>meta_node_id := Some 0\<rparr>) = st_seed \<and>
   get_priority env0 st_seed ''a.test'' (req1\<lparr>meta_node_id := Some 0\<rparr>) = Inr 0 \<and>
   0 \<notin> request_ids [req1, req2]"
  using node_id_zero_is_missing [OF reachable_st_seed, of req1 "''a.test''"] reachable_st_seed
  by (simp add: req1_def)

section \<open>Re-prioritization\<close>

lemma get_priority_scheduler_queue:
  "get_priority env (st\<lparr>scheduler_queue := sq\<rparr>) d = get_priority env st d"
proof -
  have "get_request_priority env (st\<lparr>scheduler_queue := sq\<rparr>) d n = get_request_priority env st d n" for n
    by (simp add: get_request_priority_def get_domain_state_def get_action_def
        cong: sum.case_cong)
  then show ?thesis
    by (auto simp: get_priority_def fun_eq_iff split: option.splits)
qed

lemma update_domain_request_priorities_queue:
  "update_domain_request_priorities env (st\<lparr>scheduler_queue := sq\<rparr>) d =
     st\<lparr>scheduler_queue := AList.map_entry d (update_all_priorities (get_priority env st d)) sq\<rparr>"
  by (simp add: update_domain_request_priorities_def get_priority_scheduler_queue)

lemma fold_update_domain_request_priorities:
  "fold (\<lambda>d s. update_domain_request_priorities env s d) ds (st\<lparr>scheduler_queue := sq\<rparr>) =
     st\<lparr>scheduler_queue :=
          fold (\<lambda>d. AList.map_entry d (update_all_priorities (get_priority env st d))) ds sq\<rparr>"
  by (induction ds arbitrary: sq) (simp_all add: update_domain_request_priorities_queue)

lemma map_entry_append_notin:
  "d \<notin> fst ` set xs \<Longrightarrow> AList.map_entry d f (xs @ ys) = xs @ AList.map_entry d f ys"
  by (induction xs) auto

lemma fold_map_entry_distinct:
  "distinct (map fst (xs @ ys)) \<Longrightarrow>
     fold (\<lambda>d. AList.map_entry d (f d)) (map fst ys) (xs @ ys) =
       xs @ map (\<lambda>(d, q). (d, f d q)) ys"
proof (induction ys arbitrary: xs)
  case Nil
  then show ?case by simp
next
  case (Cons p ys)
  obtain d q where p: "p = (d, q)" by (cases p)
  from Cons.prems have notin: "d \<notin> fst ` set xs"
    by (auto simp: p)
  from Cons.prems have dist: "distinct (map fst ((xs @ [(d, f d q)]) @ ys))"
    by (auto simp: p)
  have "fold (\<lambda>d. AList.map_entry d (f d)) (map fst (p # ys)) (xs @ p # ys) =
        fold (\<lambda>d. AList.map_entry d (f d)) (map fst ys) ((xs @ [(d, f d q)]) @ ys)"
    by (simp add: p map_entry_append_notin [OF notin])
  also have "\<dots> = (xs @ [(d, f d q)]) @ map (\<lambda>(d, q). (d, f d q)) ys"
    by (rule Cons.IH [OF dist])
  finally show ?case by (simp add: p)
qed

text \<open>
  C5. The periodic sweep (\<open>update_request_priorities\<close> without argument) compares the
  number of responses since the last sweep with the threshold \<open>max(500, number of domains
  of the tracker)\<close>. At or below the threshold it changes nothing: no priority, and not
  the marker \<open>_scores_recalculated_at\<close>. Above it, every entry of the queue of every
  domain is re-scored against the current state, and the marker moves to the response
  count.
\<close>

theorem update_request_priorities_threshold:
  assumes "distinct (map fst (scheduler_queue st))"
  shows "update_request_priorities env st None =
     (if int (response_count st) - int (scores_recalculated_at st)
           \<le> max 500 (int (MaxScores_len (domain_scores st)))
      then st
      else st\<lparr>scheduler_queue :=
                map (\<lambda>(d, q). (d, update_all_priorities (get_priority env st d) q))
                  (scheduler_queue st),
              scores_recalculated_at := response_count st\<rparr>)"
proof -
  have "fold (\<lambda>d s. update_domain_request_priorities env s d) (map fst (scheduler_queue st)) st =
        st\<lparr>scheduler_queue :=
             fold (\<lambda>d. AList.map_entry d (update_all_priorities (get_priority env st d)))
               (map fst (scheduler_queue st)) (scheduler_queue st)\<rparr>"
    using fold_update_domain_request_priorities
      [where env = env and ds = "map fst (scheduler_queue st)" and st = st and sq = "scheduler_queue st"]
    by simp
  also have "fold (\<lambda>d. AList.map_entry d (update_all_priorities (get_priority env st d)))
               (map fst (scheduler_queue st)) (scheduler_queue st) =
             map (\<lambda>(d, q). (d, update_all_priorities (get_priority env st d) q)) (scheduler_queue st)"
    using fold_map_entry_distinct
      [where xs = "[]" and ys = "scheduler_queue st"
         and f = "\<lambda>d. update_all_priorities (get_priority env st d)"]
      assms
    by simp
  finally show ?thesis
    by (simp add: update_request_priorities_def Let_def get_domains_def)
qed

text \<open>
  With 501 responses since the last sweep and one domain, both queued requests get the
  priority of the fitted estimator; with 500 nothing changes.
\<close>

theorem update_request_priorities_threshold_witness:
  "distinct (map fst (scheduler_queue st_busy)) \<and>
   map (\<lambda>(d, q). (d, map priority q))
     (scheduler_queue (update_request_priorities env0 st_busy None))
     = [(''a.test'', [30000, 30000])] \<and>
   scores_recalculated_at (update_request_priorities env0 st_busy None) = 501 \<and>
   update_request_priorities env0 (st_busy\<lparr>response_count := 500\<rparr>) None
     = st_busy\<lparr>response_count := 500\<rparr>"
proof -
  have d: "distinct (map fst (scheduler_queue st_busy))"
    by (simp add: st_busy_def)
  have d': "distinct (map fst (scheduler_queue (st_busy\<lparr>response_count := 500\<rparr>)))"
    by (simp add: st_busy_def)
  have above: "\<not> int (response_count st_busy) - int (scores_recalculated_at st_busy)
                  \<le> max 500 (int (MaxScores_len (domain_scores st_busy)))"
    by (simp add: st_busy_def st_seed_def MaxScores_len_def)
  have below: "int (response_count (st_busy\<lparr>response_count := 500\<rparr>))
                 - int (scores_recalculated_at (st_busy\<lparr>response_count := 500\<rparr>))
               \<le> max 500 (int (MaxScores_len (domain_scores (st_busy\<lparr>response_count := 500\<rparr>))))"
    by (simp add: st_busy_def st_seed_def MaxScores_len_def)
  have p: "map (\<lambda>(d, q). (d, map priority q))
             (map (\<lambda>(d, q). (d, update_all_priorities (get_priority env0 st_busy d) q))
                (scheduler_queue st_busy)) = [(''a.test'', [30000, 30000])]"
    by code_simp
  show ?thesis
    using update_request_priorities_threshold [OF d, of env0]
      update_request_priorities_threshold [OF d', of env0] above below p d
    by (simp add: st_busy_def st_seed_def)
qed

lemma get_domain_queue_map_entry:
  "get_domain_queue (AList.map_entry d (update_all_priorities f) sq) d =
     update_all_priorities f (get_domain_queue sq d)"
  by (simp add: get_domain_queue_def map_of_map_entry update_all_priorities_def
      split: option.splits)

text \<open>
  C9. In the sweep of one domain the queue keeps its entries in place. An entry whose
  priority computation raises keeps its previous priority, unchanged, and every other
  entry gets its newly computed priority: a failure does not stop the sweep.
\<close>

theorem failed_priority_keeps_previous:
  assumes "q = get_domain_queue (scheduler_queue st) d"
    and "q' = get_domain_queue (scheduler_queue (update_domain_request_priorities env st d)) d"
    and "i < length q"
  shows "length q' = length q \<and>
         (case get_priority env st d (q ! i) of
            Inl e \<Rightarrow> q' ! i = q ! i
          | Inr p \<Rightarrow> q' ! i = (q ! i)\<lparr>priority := p\<rparr>)"
  using assms
  by (simp add: update_domain_request_priorities_def get_domain_queue_map_entry
      update_all_priorities_def split: sum.splits)

text \<open>
  The vectorizers raise on the link of the second request: it keeps its priority 0, the
  first request gets the new priority 30000.
\<close>

theorem failed_priority_keeps_previous_witness:
  "get_domain_queue (scheduler_queue st_busy) ''a.test'' = [req1, req2] \<and>
   get_priority env_raising st_busy ''a.test'' req2 = Inl VectorizerError \<and>
   get_priority env_raising st_busy ''a.test'' req1 = Inr 30000 \<and>
   get_domain_queue
     (scheduler_queue (update_domain_request_priorities env_raising st_busy ''a.test'')) ''a.test''
     = [req1\<lparr>priority := 30000\<rparr>, req2]"
proof -
  have q: "get_domain_queue (scheduler_queue st_busy) ''a.test'' = [req1, req2]"
    by code_simp
  have p2: "get_priority env_raising st_busy ''a.test'' req2 = Inl VectorizerError"
    by code_simp
  have p1: "get_priority env_raising st_busy ''a.test'' req1 = Inr 30000"
    by code_simp
  define q' where "q' = get_domain_queue
     (scheduler_queue (update_domain_request_priorities env_raising st_busy ''a.test'')) ''a.test''"
  from failed_priority_keeps_previous [OF q [symmetric] q'_def, of 0]
  have a: "length q' = 2 \<and> q' ! 0 = req1\<lparr>priority := 30000\<rparr>"
    by (simp add: p1)
  from failed_priority_keeps_previous [OF q [symmetric] q'_def, of 1]
  have b: "q' ! 1 = req2"
    by (simp add: p2)
  from a b have "q' = [req1\<lparr>priority := 30000\<rparr>, req2]"
    by (cases q'; cases "tl q'") (auto simp: nth_Cons')
  with q p1 p2 show ?thesis
    by (simp add: q'_def)
qed

section \<open>Off-domain drops\<close>



lemma parse_blank: "parse env0 (QSpider_init (1 / 2)) resp_blank = Inr (st_blank, [req_off])"
  by code_simp


section \<open>Domain states as snapshots\<close>

lemma map_of_tracker_value:
  "map_of (tracker_value t) d = map_option (\<lambda>a. objects t ! a) (map_of (by_domain t) d)"
  by (simp add: tracker_value_def map_of_map [unfolded comp_def case_prod_unfold]
      case_prod_unfold)

lemma store_ok_update:
  assumes "store_ok t"
  shows "store_ok (MaxScores_ref_update env t d observed)"
proof (cases "map_of (by_domain t) d")
  case None
  then have "d \<notin> fst ` set (by_domain t)"
    by (simp add: map_of_eq_None_iff)
  with assms None show ?thesis
    by (auto simp: store_ok_def MaxScores_ref_update_def dest: less_SucI)
next
  case (Some a')
  with assms show ?thesis
    by (simp add: store_ok_def MaxScores_ref_update_def)
qed

lemma private_object_update:
  assumes "private_object t a v"
  shows "private_object (MaxScores_ref_update env t d observed) a v"
proof (cases "map_of (by_domain t) d")
  case None
  from assms have "store_ok (MaxScores_ref_update env t d observed)"
    by (simp add: private_object_def store_ok_update)
  with assms None show ?thesis
    by (auto simp: private_object_def MaxScores_ref_update_def nth_append)
next
  case (Some a')
  then have "a' \<in> snd ` set (by_domain t)"
    by (force dest: map_of_SomeD)
  with assms have "a' \<noteq> a"
    by (auto simp: private_object_def)
  moreover from assms have "store_ok (MaxScores_ref_update env t d observed)"
    by (simp add: private_object_def store_ok_update)
  ultimately show ?thesis
    using assms Some by (simp add: private_object_def MaxScores_ref_update_def)
qed

lemma private_object_getitem:
  assumes "private_object t a v"
  shows "private_object (snd (get_domain_state_ref env t d)) a v"
  using assms
  by (auto simp: private_object_def store_ok_def get_domain_state_ref_def
      MaxScores_ref_getitem_def Let_def nth_append dest: less_SucI)

lemma private_object_calls:
  "private_object t a v \<Longrightarrow> private_object (tracker_calls env calls t) a v"
proof (induction calls arbitrary: t)
  case Nil
  then show ?case by simp
next
  case (Cons c calls)
  then show ?case
    by (cases c) (simp_all add: private_object_update private_object_getitem)
qed

text \<open>
  The store is the tracker of the sections above: its value follows \<open>MaxScores_update\<close>.
\<close>

lemma update_notin: "k \<notin> fst ` set al \<Longrightarrow> AList.update k v al = al @ [(k, v)]"
  by (induction al) auto

lemma tracker_value_write:
  assumes "map_of xs d = Some a" and "distinct (map snd xs)"
  shows "map (\<lambda>(d', a'). (d', os[a := v] ! a')) xs =
         AList.update d (os[a := v] ! a) (map (\<lambda>(d', a'). (d', os ! a')) xs)"
  using assms
proof (induction xs)
  case Nil
  then show ?case by simp
next
  case (Cons p xs)
  obtain d0 a0 where p: "p = (d0, a0)" by (cases p)
  show ?case
  proof (cases "d0 = d")
    case True
    with Cons.prems p have a0: "a0 = a" and "a \<notin> snd ` set xs"
      by auto
    then have "os[a := v] ! b = os ! b" if "(d', b) \<in> set xs" for d' b
    proof -
      from that \<open>a \<notin> snd ` set xs\<close> have "b \<noteq> a" by force
      then show ?thesis by simp
    qed
    then have "map (\<lambda>(d', a'). (d', os[a := v] ! a')) xs = map (\<lambda>(d', a'). (d', os ! a')) xs"
      by auto
    with True show ?thesis by (simp add: p a0)
  next
    case False
    with Cons.prems p have rest: "map_of xs d = Some a" "distinct (map snd xs)"
      by auto
    then have "a \<in> snd ` set xs"
      by (force dest: map_of_SomeD)
    with Cons.prems p have "a0 \<noteq> a" by auto
    with False Cons.IH [OF rest] show ?thesis
      by (simp add: p)
  qed
qed

lemma tracker_value_update:
  assumes "store_ok t"
  shows "tracker_value (MaxScores_ref_update env t d observed) =
         MaxScores_update env (tracker_value t) d observed"
proof (cases "map_of (by_domain t) d")
  case None
  then have "d \<notin> fst ` set (tracker_value t)"
    by (force simp: tracker_value_def map_of_eq_None_iff)
  moreover have "map (\<lambda>(d', a'). (d', (objects t @ [x]) ! a')) (by_domain t) = tracker_value t" for x
    using assms by (auto simp: tracker_value_def store_ok_def nth_append)
  ultimately show ?thesis
    using None
    by (simp add: MaxScores_update_def MaxScores_getitem_def map_of_tracker_value
        MaxScores_ref_update_def update_notin)
      (simp add: tracker_value_def)
next
  case (Some a)
  then have "a \<in> snd ` set (by_domain t)"
    by (force dest: map_of_SomeD)
  with assms have lt: "a < length (objects t)" and dist: "distinct (map snd (by_domain t))"
    by (auto simp: store_ok_def)
  from Some have cur: "MaxScores_getitem env (tracker_value t) d = objects t ! a"
    by (simp add: MaxScores_getitem_def map_of_tracker_value)
  have "tracker_value (MaxScores_ref_update env t d observed) =
        map (\<lambda>(d', a'). (d', (objects t)[a := running_max (objects t ! a) observed] ! a'))
          (by_domain t)"
    using Some by (simp add: MaxScores_ref_update_def tracker_value_def)
  also have "\<dots> = AList.update d (running_max (objects t ! a) observed) (tracker_value t)"
    using tracker_value_write [OF Some dist, of "objects t" "running_max (objects t ! a) observed"] lt
    by (simp add: tracker_value_def)
  finally show ?thesis
    by (simp add: MaxScores_update_def cur)
qed

text \<open>
  C8. The domain state that \<open>get_domain_state\<close> returns is a fresh object with the
  content of the state at the time of the call. The tracker does not hold it, and it
  keeps this content over every later call on the tracker, updates of the same domain
  included.
\<close>

theorem domain_state_is_snapshot:
  assumes "store_ok t" and "get_domain_state_ref env t d = (a, t1)"
  shows "objects (tracker_calls env calls t1) ! a = MaxScores_getitem env (tracker_value t) d \<and>
         a \<notin> snd ` set (by_domain (tracker_calls env calls t1))"
proof -
  from assms(2) have a: "a = length (objects t)"
    and t1: "t1 = t\<lparr>objects := objects t @ [case map_of (by_domain t) d of
                                               None \<Rightarrow> get_constant_scores env 0
                                             | Some a' \<Rightarrow> objects t ! a']\<rparr>"
    by (auto simp: get_domain_state_ref_def MaxScores_ref_getitem_def Let_def)
  have v: "objects t1 ! a = MaxScores_getitem env (tracker_value t) d"
    by (simp add: a t1 MaxScores_getitem_def map_of_tracker_value split: option.splits)
  from assms(1) have "private_object t1 a (MaxScores_getitem env (tracker_value t) d)"
    unfolding private_object_def v [symmetric]
    by (auto simp: a t1 store_ok_def dest: less_SucI)
  from private_object_calls [OF this, of env calls] show ?thesis
    by (simp add: private_object_def)
qed

text \<open>
  The state of \<open>a.test\<close> is read, then the domain is updated with a better score: the
  object returned still has 0.8, the object of the tracker has 0.9.
\<close>

theorem domain_state_is_snapshot_witness:
  "store_ok store0 \<and>
   get_domain_state_ref env0 store0 ''a.test'' =
     (1, \<lparr>objects = [[(''forms'', 8 / 10)], [(''forms'', 8 / 10)]], by_domain = [(''a.test'', 0)]\<rparr>) \<and>
   objects (tracker_calls env0 [Update ''a.test'' [(''forms'', 9 / 10)]]
              \<lparr>objects = [[(''forms'', 8 / 10)], [(''forms'', 8 / 10)]],
                by_domain = [(''a.test'', 0)]\<rparr>)
     = [[(''forms'', 9 / 10)], [(''forms'', 8 / 10)]]"
proof -
  have ok: "store_ok store0"
    by (simp add: store_ok_def store0_def)
  have g: "get_domain_state_ref env0 store0 ''a.test'' =
     (1, \<lparr>objects = [[(''forms'', 8 / 10)], [(''forms'', 8 / 10)]], by_domain = [(''a.test'', 0)]\<rparr>)"
    by code_simp
  have u: "objects (tracker_calls env0 [Update ''a.test'' [(''forms'', 9 / 10)]]
              \<lparr>objects = [[(''forms'', 8 / 10)], [(''forms'', 8 / 10)]],
                by_domain = [(''a.test'', 0)]\<rparr>)
     = [[(''forms'', 9 / 10)], [(''forms'', 8 / 10)]]"
    by code_simp
  from domain_state_is_snapshot [OF ok g, of "[Update ''a.test'' [(''forms'', 9 / 10)]]"] ok g u
  show ?thesis by simp
qed

end
